theory Spec2Isabelle
  imports Complex_Main "HOL-Library.AList"
begin

section \<open>Data model (types.ts)\<close>

datatype PlaybackState = stopped | playing | loading | paused

datatype DrumStemType =
    KICK | SNARE | CLOSED_HI_HAT | OPEN_HI_HAT | LOW_TOM
  | MID_TOM | HIGH_TOM | CRASH_CYMBAL | RIDE_CYMBAL | PERCUSSION

definition DRUM_STEM_TYPES :: "DrumStemType list" where
  "DRUM_STEM_TYPES =
     [KICK, SNARE, CLOSED_HI_HAT, OPEN_HI_HAT, LOW_TOM,
      MID_TOM, HIGH_TOM, CRASH_CYMBAL, RIDE_CYMBAL, PERCUSSION]"

text \<open>
  \<^verbatim>\<open>type DrumMix = { [key in DrumStemType]?: number }\<close>: every key is optional, so a
  drum mix is a partial map; a key that is absent (or holds \<^verbatim>\<open>undefined\<close>) is \<open>None\<close>.
\<close>

type_synonym DrumMix = "DrumStemType \<rightharpoonup> real"

text \<open>
  The interface \<^verbatim>\<open>Prompt\<close>. The field \<^verbatim>\<open>text\<close> is called \<open>ptext\<close> here, since
  \<open>text\<close> is a keyword of the theory language.
\<close>

record Prompt =
  promptId :: string
  ptext :: string
  weight :: real
  cc :: int
  color :: string

section \<open>The controller PromptDjMidi (index.tsx)\<close>

text \<open>
  The requests made on the remote session, in the order they are made. The payload of
  \<^verbatim>\<open>setWeightedPrompts\<close> is the array of prompt objects, that of \<^verbatim>\<open>setDrumMix\<close>
  the normalised drum mix.
\<close>

datatype command =
    SetWeightedPrompts "Prompt list"
  | SetDrumMix DrumMix
  | Play
  | Pause
  | Stop

text \<open>How a request on the remote session ends: its promise resolves or rejects with a message.\<close>

datatype outcome = Resolved | Rejected string

text \<open>
  The fields of the class that the control and scheduling logic reads and writes, followed
  by the effects it has on its collaborators, kept as logs:
  \<^item> \<open>prompts\<close>: the \<^verbatim>\<open>Map<string, Prompt>\<close>, in insertion order;
  \<^item> \<open>session\<close>: whether \<^verbatim>\<open>this.session\<close> is set;
  \<^item> \<open>nextStartTime\<close>: the scheduler's next start time, \<open>0\<close> meaning unset;
  \<^item> \<open>scheduled\<close>: every \<^verbatim>\<open>source.start(t)\<close> made, as the pair of \<open>t\<close> and the
    duration of the buffer started;
  \<^item> \<open>timers\<close>: the pending \<^verbatim>\<open>setTimeout\<close> callbacks of the scheduler, by delay in ms;
  \<^item> \<open>toasts\<close>: the messages given to \<^verbatim>\<open>toastMessage.show\<close>;
  \<^item> \<open>sent\<close>: the requests made on the remote session;
  \<^item> \<open>unhandled\<close>: the messages of rejected promises that no handler was attached to;
  \<^item> \<open>connects\<close>: the number of calls of \<^verbatim>\<open>ai.live.music.connect\<close>.
  The gain node, the analyser, lyrics and voice recordings are left out: no scheduling or
  control decision reads them.
\<close>

record PromptDjMidi =
  prompts :: "(string \<times> Prompt) list"
  playbackState :: PlaybackState
  drumMixSettings :: DrumMix
  session :: bool
  nextStartTime :: real
  filteredPrompts :: "string set"
  connectionError :: bool
  scheduled :: "(real \<times> real) list"
  timers :: "real list"
  toasts :: "string list"
  sent :: "command list"
  unhandled :: "string list"
  connects :: nat

definition bufferTime :: real where
  "bufferTime = 2"

subsection \<open>The audio chunk scheduler (the audioChunks branch of onmessage)\<close>

text \<open>
  The start time the scheduler works with once the first-chunk test has run: an unset
  \<open>nextStartTime\<close> is primed to the clock time plus the lookahead.
\<close>

definition primed :: "real \<Rightarrow> PromptDjMidi \<Rightarrow> real" where
  "primed currentTime s =
     (if nextStartTime s = 0 then currentTime + bufferTime else nextStartTime s)"

text \<open>
  One decoded chunk of the given duration arrives while the audio clock reads
  \<open>currentTime\<close>. The handler is taken as one step: decoding is awaited, but nothing
  else of the class runs in between in this model.
\<close>

definition onAudioChunk :: "real \<Rightarrow> real \<Rightarrow> PromptDjMidi \<Rightarrow> PromptDjMidi" where
  "onAudioChunk currentTime duration s =
     (if playbackState s = paused \<or> playbackState s = stopped then s
      else
        let s1 = (if nextStartTime s = 0
                  then s\<lparr>nextStartTime := currentTime + bufferTime,
                         timers := timers s @ [bufferTime * 1000]\<rparr>
                  else s)
        in if nextStartTime s1 < currentTime
           then s1\<lparr>playbackState := loading, nextStartTime := 0\<rparr>
           else s1\<lparr>scheduled := scheduled s1 @ [(nextStartTime s1, duration)],
                   nextStartTime := nextStartTime s1 + duration\<rparr>)"

text \<open>
  The callback given to \<^verbatim>\<open>setTimeout\<close> by the first-chunk branch runs: it assigns
  \<^verbatim>\<open>'playing'\<close> and reads nothing. Timers of equal delay run in the order they were set.
\<close>

definition lookaheadElapsed :: "PromptDjMidi \<Rightarrow> PromptDjMidi" where
  "lookaheadElapsed s =
     (case timers s of
        [] \<Rightarrow> s
      | d # ds \<Rightarrow> s\<lparr>playbackState := playing, timers := ds\<rparr>)"

text \<open>A run of the scheduler: chunks arrive and lookahead timers expire, nothing else happens.\<close>

datatype sched_event = ChunkDecoded real real | LookaheadElapsed

fun handle :: "sched_event \<Rightarrow> PromptDjMidi \<Rightarrow> PromptDjMidi" where
  "handle (ChunkDecoded currentTime duration) s = onAudioChunk currentTime duration s"
| "handle LookaheadElapsed s = lookaheadElapsed s"

fun run :: "sched_event list \<Rightarrow> PromptDjMidi \<Rightarrow> PromptDjMidi" where
  "run [] s = s"
| "run (e # es) s = run es (handle e s)"

text \<open>The chunks of a run, as pairs of arrival clock time and duration.\<close>

fun chunks :: "sched_event list \<Rightarrow> (real \<times> real) list" where
  "chunks [] = []"
| "chunks (ChunkDecoded currentTime duration # es) = (currentTime, duration) # chunks es"
| "chunks (LookaheadElapsed # es) = chunks es"

text \<open>
  An underrun is the test \<^verbatim>\<open>this.nextStartTime < this.audioContext.currentTime\<close> succeeding,
  which the handler makes after the first-chunk test.
\<close>

definition underrun :: "real \<Rightarrow> PromptDjMidi \<Rightarrow> bool" where
  "underrun currentTime s = (primed currentTime s < currentTime)"

fun no_underrun :: "sched_event list \<Rightarrow> PromptDjMidi \<Rightarrow> bool" where
  "no_underrun [] s = True"
| "no_underrun (ChunkDecoded currentTime duration # es) s =
     (\<not> underrun currentTime s \<and> no_underrun es (onAudioChunk currentTime duration s))"
| "no_underrun (LookaheadElapsed # es) s = no_underrun es (lookaheadElapsed s)"

text \<open>The audio clock never reads a negative time, and no buffer has a negative duration.\<close>

fun clock_sane :: "sched_event \<Rightarrow> bool" where
  "clock_sane (ChunkDecoded currentTime duration) = (0 \<le> currentTime \<and> 0 \<le> duration)"
| "clock_sane LookaheadElapsed = True"

text \<open>The start time of the first buffer of a run, when none of its chunks underruns.\<close>

definition start_of :: "sched_event list \<Rightarrow> PromptDjMidi \<Rightarrow> real" where
  "start_of evs s =
     (case chunks evs of [] \<Rightarrow> nextStartTime s | (currentTime, duration) # _ \<Rightarrow> primed currentTime s)"

text \<open>A list of scheduled buffers that starts at \<open>t\<close> and leaves neither gap nor overlap.\<close>

fun chain :: "real \<Rightarrow> (real \<times> real) list \<Rightarrow> bool" where
  "chain t [] = True"
| "chain t ((start, duration) # bs) = (start = t \<and> chain (t + duration) bs)"

subsection \<open>Defaults and construction\<close>

definition DEFAULT_PROMPTS :: "(string \<times> string) list" where
  "DEFAULT_PROMPTS =
     [(''#9900ff'', ''Bossa Nova''), (''#5200ff'', ''Chillwave''),
      (''#ff25f6'', ''Drum and Bass''), (''#2af6de'', ''Post Punk''),
      (''#ffdd28'', ''Shoegaze''), (''#2af6de'', ''Funk''),
      (''#9900ff'', ''Chiptune''), (''#3dffab'', ''Lush Strings''),
      (''#d8ff3e'', ''Sparkling Arpeggios''), (''#d9b2ff'', ''Staccato Rhythms''),
      (''#3dffab'', ''Punchy Kick''), (''#ffdd28'', ''Dubstep''),
      (''#ff25f6'', ''K Pop''), (''#d8ff3e'', ''Neo Soul''),
      (''#5200ff'', ''Trip Hop''), (''#d9b2ff'', ''Thrash'')]"

definition DEFAULT_DRUM_MIX_SETTINGS :: DrumMix where
  "DEFAULT_DRUM_MIX_SETTINGS =
     [KICK \<mapsto> 0.75, SNARE \<mapsto> 0.75, CLOSED_HI_HAT \<mapsto> 0.6, OPEN_HI_HAT \<mapsto> 0.5,
      LOW_TOM \<mapsto> 0.4, MID_TOM \<mapsto> 0.4, HIGH_TOM \<mapsto> 0.4, CRASH_CYMBAL \<mapsto> 0.5,
      RIDE_CYMBAL \<mapsto> 0.5, PERCUSSION \<mapsto> 0.5]"

text \<open>The decimal digits of a number, for the template string \<^verbatim>\<open>`prompt-${i}`\<close>.\<close>

fun digits :: "nat \<Rightarrow> string" where
  "digits n =
     (if n < 10 then [char_of (48 + n)]
      else digits (n div 10) @ [char_of (48 + n mod 10)])"

text \<open>
  \<^verbatim>\<open>buildDefaultPrompts\<close> shuffles the defaults at random and switches the first three on.
  The three picked entries are an input here, as their indices in \<open>DEFAULT_PROMPTS\<close>.
\<close>

definition buildDefaultPrompts :: "nat list \<Rightarrow> (string \<times> Prompt) list" where
  "buildDefaultPrompts startOn =
     map (\<lambda>i. (''prompt-'' @ digits i,
                \<lparr>promptId = ''prompt-'' @ digits i,
                 ptext = snd (DEFAULT_PROMPTS ! i),
                 weight = (if i \<in> set startOn then 1 else 0),
                 cc = int i,
                 color = fst (DEFAULT_PROMPTS ! i)\<rparr>))
         [0..<length DEFAULT_PROMPTS]"

text \<open>The object after its field initialisers and constructor have run, with empty logs.\<close>

definition initial :: "(string \<times> Prompt) list \<Rightarrow> PromptDjMidi" where
  "initial ps =
     \<lparr>prompts = ps, playbackState = stopped,
      drumMixSettings = DEFAULT_DRUM_MIX_SETTINGS, session = False,
      nextStartTime = 0, filteredPrompts = {}, connectionError = True,
      scheduled = [], timers = [], toasts = [], sent = [], unhandled = [],
      connects = 0\<rparr>"

subsection \<open>Requests on the remote session\<close>

text \<open>
  How each request ends is decided by the remote service: \<open>reply n\<close> is the outcome of the
  request that is made when \<open>n\<close> requests have been made before it.
\<close>

type_synonym replies = "nat \<Rightarrow> outcome"

text \<open>
  A request whose promise is dropped (\<^verbatim>\<open>this.session.pause()\<close> and its siblings, neither
  awaited nor given a handler): when it is rejected, the rejection has no handler.
\<close>

definition fireAndForget :: "replies \<Rightarrow> command \<Rightarrow> PromptDjMidi \<Rightarrow> PromptDjMidi" where
  "fireAndForget reply c s =
     s\<lparr>sent := sent s @ [c],
       unhandled := unhandled s @
         (case reply (length (sent s)) of Resolved \<Rightarrow> [] | Rejected m \<Rightarrow> [m])\<rparr>"

definition getPromptsToSend :: "PromptDjMidi \<Rightarrow> Prompt list" where
  "getPromptsToSend s =
     filter (\<lambda>p. ptext p \<notin> filteredPrompts s \<and> weight p \<noteq> 0) (map snd (prompts s))"

definition pause :: "replies \<Rightarrow> PromptDjMidi \<Rightarrow> PromptDjMidi" where
  "pause reply s =
     (let s1 = (if session s \<and> \<not> connectionError s then fireAndForget reply Pause s else s)
      in s1\<lparr>playbackState := paused, nextStartTime := 0\<rparr>)"

definition play :: "replies \<Rightarrow> PromptDjMidi \<Rightarrow> PromptDjMidi" where
  "play reply s =
     (if \<not> session s
      then s\<lparr>toasts := toasts s @ [''Session not ready. Please wait or try reconnecting.'']\<rparr>
      else if length (getPromptsToSend s) = 0
      then pause reply
             (s\<lparr>toasts := toasts s @
                  [''Add some sound flavor! Turn up a knob to play music.'']\<rparr>)
      else
        let s1 = (if session s \<and> \<not> connectionError s then fireAndForget reply Play s else s)
        in s1\<lparr>playbackState := loading\<rparr>)"

definition stop :: "replies \<Rightarrow> PromptDjMidi \<Rightarrow> PromptDjMidi" where
  "stop reply s =
     (let s1 = (if session s \<and> \<not> connectionError s then fireAndForget reply Stop s else s)
      in s1\<lparr>playbackState := stopped, nextStartTime := 0\<rparr>)"

subsection \<open>The two throttled pushes\<close>

text \<open>
  The function that \<^verbatim>\<open>setSessionPrompts = throttle(async () => {...}, 200)\<close> wraps. The
  request is awaited inside \<^verbatim>\<open>try\<close>; the function is taken as one step.
\<close>

definition setSessionPrompts_body :: "replies \<Rightarrow> PromptDjMidi \<Rightarrow> PromptDjMidi" where
  "setSessionPrompts_body reply s =
     (if connectionError s \<or> \<not> session s then s
      else
        let promptsToSend = getPromptsToSend s
        in if length promptsToSend = 0
           then pause reply
                  (s\<lparr>toasts := toasts s @ [''There needs to be one active prompt to play.'']\<rparr>)
           else
             let s1 = s\<lparr>sent := sent s @ [SetWeightedPrompts promptsToSend]\<rparr>
             in case reply (length (sent s)) of
                  Resolved \<Rightarrow> s1
                | Rejected m \<Rightarrow> pause reply (s1\<lparr>toasts := toasts s1 @ [m]\<rparr>))"

text \<open>The loop over \<open>DRUM_STEM_TYPES\<close> that fills the object \<^verbatim>\<open>drumMixToSend\<close>.\<close>

definition drumMixToSend :: "DrumMix \<Rightarrow> DrumMix" where
  "drumMixToSend settings =
     foldl (\<lambda>acc stem. acc(stem \<mapsto> (case settings stem of Some v \<Rightarrow> v | None \<Rightarrow> 0)))
           Map.empty DRUM_STEM_TYPES"

definition setSessionDrumMix_body :: "replies \<Rightarrow> PromptDjMidi \<Rightarrow> PromptDjMidi" where
  "setSessionDrumMix_body reply s =
     (if connectionError s \<or> \<not> session s then s
      else
        let s1 = s\<lparr>sent := sent s @ [SetDrumMix (drumMixToSend (drumMixSettings s))]\<rparr>
        in case reply (length (sent s)) of
             Resolved \<Rightarrow> s1
           | Rejected m \<Rightarrow> s1\<lparr>toasts := toasts s1 @ [''Error setting drum mix: '' @ m]\<rparr>)"

text \<open>
  \<^verbatim>\<open>utils/throttle\<close> is not among the sources. Whatever it does, a call of the wrapper
  either runs the wrapped function at once or does not; which of the two is an input
  \<open>runs\<close> of every call. A run that the wrapper makes later, from a timer of its own, is
  the wrapped function applied then.
\<close>

definition throttled :: "bool \<Rightarrow> (PromptDjMidi \<Rightarrow> PromptDjMidi) \<Rightarrow> PromptDjMidi \<Rightarrow> PromptDjMidi" where
  "throttled runs f s = (if runs then f s else s)"

definition setSessionPrompts :: "bool \<Rightarrow> replies \<Rightarrow> PromptDjMidi \<Rightarrow> PromptDjMidi" where
  "setSessionPrompts runs reply = throttled runs (setSessionPrompts_body reply)"

definition setSessionDrumMix :: "bool \<Rightarrow> replies \<Rightarrow> PromptDjMidi \<Rightarrow> PromptDjMidi" where
  "setSessionDrumMix runs reply = throttled runs (setSessionDrumMix_body reply)"

subsection \<open>The session's callbacks\<close>

text \<open>
  A \<^verbatim>\<open>LiveMusicServerMessage\<close>, as far as the handler reads it: the \<^verbatim>\<open>setupComplete\<close>
  flag, the text and reason of \<^verbatim>\<open>filteredPrompt\<close>, and \<^verbatim>\<open>serverContent.audioChunks\<close>.
  A chunk is given by the duration of the buffer it decodes to (\<^verbatim>\<open>utils/audio\<close>, which
  decodes, is not among the sources).
\<close>

record LiveMusicServerMessage =
  setupComplete :: bool
  filteredPrompt :: "(string \<times> string) option"
  audioChunks :: "real list option"

text \<open>
  \<^verbatim>\<open>onmessage\<close>, with the clock time read while it runs and the choice of the throttle at
  its one throttled call. Only \<^verbatim>\<open>audioChunks[0]\<close> is decoded; on an empty array that
  read throws inside the async handler, after the test of the playback state.
\<close>

definition onmessage ::
  "replies \<Rightarrow> bool \<Rightarrow> real \<Rightarrow> LiveMusicServerMessage \<Rightarrow> PromptDjMidi \<Rightarrow> PromptDjMidi" where
  "onmessage reply runs currentTime e s =
     (let s1 = (if setupComplete e
                then setSessionDrumMix runs reply (s\<lparr>connectionError := False\<rparr>)
                else s);
          s2 = (case filteredPrompt e of
                  None \<Rightarrow> s1
                | Some (txt, filteredReason) \<Rightarrow>
                    s1\<lparr>filteredPrompts := insert txt (filteredPrompts s1),
                       toasts := toasts s1 @ [filteredReason]\<rparr>)
      in case audioChunks e of
           None \<Rightarrow> s2
         | Some [] \<Rightarrow>
             if playbackState s2 = paused \<or> playbackState s2 = stopped then s2
             else s2\<lparr>unhandled := unhandled s2 @ [''TypeError'']\<rparr>
         | Some (duration # _) \<Rightarrow> onAudioChunk currentTime duration s2)"

definition onerror :: "replies \<Rightarrow> PromptDjMidi \<Rightarrow> PromptDjMidi" where
  "onerror reply s =
     (let s1 = stop reply (s\<lparr>connectionError := True\<rparr>)
      in s1\<lparr>toasts := toasts s1 @ [''Connection error, please restart audio.'']\<rparr>)"

definition onclose :: "replies \<Rightarrow> PromptDjMidi \<Rightarrow> PromptDjMidi" where
  "onclose reply s =
     (let s1 = stop reply (s\<lparr>connectionError := True\<rparr>)
      in s1\<lparr>toasts := toasts s1 @ [''Connection error, please restart audio.'']\<rparr>)"

subsection \<open>Connecting\<close>

text \<open>How \<^verbatim>\<open>await ai.live.music.connect(...)\<close> ends: with a session, or throwing an error.\<close>

datatype connect_result = ConnectResolved | ConnectRejected string

definition connectToSession ::
  "replies \<Rightarrow> connect_result \<Rightarrow> PromptDjMidi \<Rightarrow> PromptDjMidi" where
  "connectToSession reply res s =
     (let s0 = s\<lparr>connects := connects s + 1\<rparr>
      in case res of
           ConnectResolved \<Rightarrow> s0\<lparr>session := True\<rparr>
         | ConnectRejected m \<Rightarrow>
             let s1 = stop reply (s0\<lparr>connectionError := True\<rparr>)
             in s1\<lparr>toasts := toasts s1 @
                    [''Failed to connect to music session: '' @
                     (if m = [] then ''Unknown connection error'' else m)]\<rparr>)"

definition firstUpdated ::
  "replies \<Rightarrow> connect_result \<Rightarrow> bool \<Rightarrow> bool \<Rightarrow> PromptDjMidi \<Rightarrow> PromptDjMidi" where
  "firstUpdated reply res runsPrompts runsDrumMix s =
     (let s1 = connectToSession reply res s;
          s2 = setSessionPrompts runsPrompts reply s1
      in if \<not> connectionError s2 then setSessionDrumMix runsDrumMix reply s2 else s2)"

subsection \<open>User actions\<close>

text \<open>
  \<^verbatim>\<open>handlePlayPause\<close>, taken as one step, with the result of the connection attempt it
  may make and the choices of the throttle at its two throttled calls.
\<close>

definition handlePlayPause ::
  "replies \<Rightarrow> connect_result \<Rightarrow> bool \<Rightarrow> bool \<Rightarrow> PromptDjMidi \<Rightarrow> PromptDjMidi" where
  "handlePlayPause reply res runsPrompts runsDrumMix s =
     (if playbackState s = playing then pause reply s
      else if playbackState s = paused \<or> playbackState s = stopped then
        (if connectionError s \<or> \<not> session s then
           let s1 = connectToSession reply res
                      (s\<lparr>toasts := toasts s @ [''Reconnecting Lyria session...'']\<rparr>)
           in if \<not> connectionError s1 \<and> session s1
              then play reply
                     (setSessionDrumMix runsDrumMix reply
                        (setSessionPrompts runsPrompts reply s1))
              else s1\<lparr>toasts := toasts s1 @
                         [''Failed to reconnect Lyria. Please check console.''],
                      playbackState := stopped\<rparr>
         else play reply s)
      else if playbackState s = loading then stop reply s
      else s)"

definition dispatchPromptsChange :: "replies \<Rightarrow> bool \<Rightarrow> PromptDjMidi \<Rightarrow> PromptDjMidi" where
  "dispatchPromptsChange reply runs s = setSessionPrompts runs reply s"

definition setPrompts ::
  "replies \<Rightarrow> bool \<Rightarrow> (string \<times> Prompt) list \<Rightarrow> PromptDjMidi \<Rightarrow> PromptDjMidi" where
  "setPrompts reply runs newPrompts s = dispatchPromptsChange reply runs (s\<lparr>prompts := newPrompts\<rparr>)"

text \<open>
  \<^verbatim>\<open>handlePromptChanged\<close> with the detail \<^verbatim>\<open>{promptId, text, weight, cc}\<close> of the event.
  \<^verbatim>\<open>Map.set\<close> on a key that is present keeps the key's place.
\<close>

definition handlePromptChanged ::
  "replies \<Rightarrow> bool \<Rightarrow> string \<Rightarrow> string \<Rightarrow> real \<Rightarrow> int \<Rightarrow> PromptDjMidi \<Rightarrow> PromptDjMidi" where
  "handlePromptChanged reply runs pid txt w c s =
     (case map_of (prompts s) pid of
        None \<Rightarrow> s
      | Some prompt \<Rightarrow>
          setPrompts reply runs
            (AList.update pid (prompt\<lparr>ptext := txt, weight := w, cc := c\<rparr>) (prompts s)) s)"

definition handleDrumMixChanged ::
  "replies \<Rightarrow> bool \<Rightarrow> DrumMix \<Rightarrow> PromptDjMidi \<Rightarrow> PromptDjMidi" where
  "handleDrumMixChanged reply runs detail s =
     setSessionDrumMix runs reply (s\<lparr>drumMixSettings := detail\<rparr>)"

text \<open>
  \<^verbatim>\<open>resetAll\<close>. The toast is given without the emoji it starts with; the lyrics pad it
  clears is not part of the state here.
\<close>

definition resetAll ::
  "replies \<Rightarrow> bool \<Rightarrow> bool \<Rightarrow> nat list \<Rightarrow> PromptDjMidi \<Rightarrow> PromptDjMidi" where
  "resetAll reply runsPrompts runsDrumMix startOn s =
     (let s1 = setPrompts reply runsPrompts (buildDefaultPrompts startOn) s;
          s2 = s1\<lparr>drumMixSettings := DEFAULT_DRUM_MIX_SETTINGS\<rparr>;
          s3 = setSessionDrumMix runsDrumMix reply s2
      in s3\<lparr>toasts := toasts s3 @
             ['' Fresh Start! All sound shapers and drum mix reset. Lyrics pad cleared.'']\<rparr>)"

subsection \<open>Everything that can happen to the controller\<close>

text \<open>
  One constructor for each callback and handler above, with the inputs it takes from its
  surroundings, and one for each throttled function run later by the throttle itself.
\<close>

datatype event =
    Message bool real LiveMusicServerMessage
  | ConnectionError
  | ConnectionClosed
  | TimerElapsed
  | FirstUpdated connect_result bool bool
  | PlayPauseClicked connect_result bool bool
  | PromptChanged bool string string real int
  | DrumMixChanged bool DrumMix
  | ResetClicked bool bool "nat list"
  | DeferredPromptsPush
  | DeferredDrumMixPush

fun step :: "replies \<Rightarrow> event \<Rightarrow> PromptDjMidi \<Rightarrow> PromptDjMidi" where
  "step reply (Message runs currentTime e) s = onmessage reply runs currentTime e s"
| "step reply ConnectionError s = onerror reply s"
| "step reply ConnectionClosed s = onclose reply s"
| "step reply TimerElapsed s = lookaheadElapsed s"
| "step reply (FirstUpdated res rp rd) s = firstUpdated reply res rp rd s"
| "step reply (PlayPauseClicked res rp rd) s = handlePlayPause reply res rp rd s"
| "step reply (PromptChanged runs pid txt w c) s = handlePromptChanged reply runs pid txt w c s"
| "step reply (DrumMixChanged runs detail) s = handleDrumMixChanged reply runs detail s"
| "step reply (ResetClicked rp rd startOn) s = resetAll reply rp rd startOn s"
| "step reply DeferredPromptsPush s = setSessionPrompts_body reply s"
| "step reply DeferredDrumMixPush s = setSessionDrumMix_body reply s"

fun steps :: "replies \<Rightarrow> event list \<Rightarrow> PromptDjMidi \<Rightarrow> PromptDjMidi" where
  "steps reply [] s = s"
| "steps reply (e # es) s = steps reply es (step reply e s)"

section \<open>The throttle\<close>










section \<open>Notions used in the statements\<close>

text \<open>
  A prompt is active when its weight is not 0 and its text is not filtered; a request is in
  order when, if it is a prompt push, all the prompts it carries are active.
\<close>

definition active :: "string set \<Rightarrow> Prompt \<Rightarrow> bool" where
  "active filtered p = (weight p \<noteq> 0 \<and> ptext p \<notin> filtered)"

fun push_ok :: "string set \<Rightarrow> command \<Rightarrow> bool" where
  "push_ok filtered (SetWeightedPrompts ps) = list_all (active filtered) ps"
| "push_ok filtered c = True"

text \<open>
  From \<open>s\<close> to \<open>s'\<close> the filtered set has stayed the same and the requests made have only
  been added to, by requests that are in order.
\<close>

definition extends_ok :: "PromptDjMidi \<Rightarrow> PromptDjMidi \<Rightarrow> bool" where
  "extends_ok s s' =
     (filteredPrompts s' = filteredPrompts s \<and>
      take (length (sent s)) (sent s') = sent s \<and>
      list_all (push_ok (filteredPrompts s)) (drop (length (sent s)) (sent s')))"

text \<open>
  The events that carry a setup-complete message, and the number of calls of
  \<^verbatim>\<open>connectToSession\<close> an event makes in a state.
\<close>

definition is_setup :: "event \<Rightarrow> bool" where
  "is_setup e = (case e of Message runs currentTime m \<Rightarrow> setupComplete m | _ \<Rightarrow> False)"

definition reconnects :: "event \<Rightarrow> PromptDjMidi \<Rightarrow> nat" where
  "reconnects e s =
     (case e of
        FirstUpdated res rp rd \<Rightarrow> 1
      | PlayPauseClicked res rp rd \<Rightarrow>
          if (playbackState s = paused \<or> playbackState s = stopped) \<and>
             (connectionError s \<or> \<not> session s)
          then 1 else 0
      | _ \<Rightarrow> 0)"

text \<open>
  The start time is set only while chunks are scheduled: it is unset, or the playback state
  is \<open>playing\<close> or \<open>loading\<close>.
\<close>

definition settled :: "PromptDjMidi \<Rightarrow> bool" where
  "settled s = (nextStartTime s = 0 \<or> playbackState s = playing \<or> playbackState s = loading)"

section \<open>Sample states\<close>

text \<open>
  A connected controller that has been asked to play and waits for its first chunk.
\<close>

definition demo :: PromptDjMidi where
  "demo = (initial [])\<lparr>playbackState := loading, session := True, connectionError := False\<rparr>"

text \<open>
  A connected controller that plays, with one prompt switched on, one switched off and one
  switched on whose text the service has filtered.
\<close>

definition promptA :: Prompt where
  "promptA = \<lparr>promptId = ''prompt-0'', ptext = ''Bossa Nova'', weight = 1, cc = 0,
              color = ''#9900ff''\<rparr>"

definition mixing :: PromptDjMidi where
  "mixing =
     demo\<lparr>prompts :=
            [(''prompt-0'', promptA),
             (''prompt-1'', promptA\<lparr>promptId := ''prompt-1'', ptext := ''Chillwave'', weight := 0\<rparr>),
             (''prompt-2'', promptA\<lparr>promptId := ''prompt-2'', ptext := ''Funk''\<rparr>)],
          filteredPrompts := {''Funk''},
          playbackState := playing\<rparr>"

text \<open>
  The same controller with a single prompt, turned down to 0.
\<close>

definition silent :: PromptDjMidi where
  "silent = mixing\<lparr>prompts := [(''prompt-0'', promptA\<lparr>weight := 0\<rparr>)]\<rparr>"




section \<open>What the operations change and what they leave alone\<close>

lemma pause_frame:
  "playbackState (pause reply s) = paused"
  "nextStartTime (pause reply s) = 0"
  "timers (pause reply s) = timers s"
  "toasts (pause reply s) = toasts s"
  "filteredPrompts (pause reply s) = filteredPrompts s"
  "connectionError (pause reply s) = connectionError s"
  "session (pause reply s) = session s"
  "connects (pause reply s) = connects s"
  "scheduled (pause reply s) = scheduled s"
  "prompts (pause reply s) = prompts s"
  by (simp_all add: pause_def fireAndForget_def Let_def)

lemma stop_frame:
  "playbackState (stop reply s) = stopped"
  "nextStartTime (stop reply s) = 0"
  "timers (stop reply s) = timers s"
  "toasts (stop reply s) = toasts s"
  "filteredPrompts (stop reply s) = filteredPrompts s"
  "connectionError (stop reply s) = connectionError s"
  "session (stop reply s) = session s"
  "connects (stop reply s) = connects s"
  "scheduled (stop reply s) = scheduled s"
  "prompts (stop reply s) = prompts s"
  by (simp_all add: stop_def fireAndForget_def Let_def)

lemma pause_sent:
  "sent (pause reply s) = sent s @ (if session s \<and> \<not> connectionError s then [Pause] else [])"
  by (simp add: pause_def fireAndForget_def Let_def)

lemma stop_sent:
  "sent (stop reply s) = sent s @ (if session s \<and> \<not> connectionError s then [Stop] else [])"
  by (simp add: stop_def fireAndForget_def Let_def)

lemma lookaheadElapsed_fields:
  "scheduled (lookaheadElapsed s) = scheduled s"
  "nextStartTime (lookaheadElapsed s) = nextStartTime s"
  by (simp_all add: lookaheadElapsed_def split: list.split)

lemma lookaheadElapsed_sent: "sent (lookaheadElapsed s) = sent s"
  by (simp add: lookaheadElapsed_def split: list.split)

lemma lookaheadElapsed_frame:
  "connectionError (lookaheadElapsed s) = connectionError s"
  "connects (lookaheadElapsed s) = connects s"
  by (simp_all add: lookaheadElapsed_def split: list.split)

lemma onAudioChunk_frame:
  "sent (onAudioChunk t d s) = sent s"
  "filteredPrompts (onAudioChunk t d s) = filteredPrompts s"
  "connectionError (onAudioChunk t d s) = connectionError s"
  "connects (onAudioChunk t d s) = connects s"
  by (simp_all add: onAudioChunk_def Let_def)

lemma play_frame:
  "connectionError (play reply s) = connectionError s"
  "connects (play reply s) = connects s"
  "session (play reply s) = session s"
  by (simp_all add: play_def Let_def pause_frame fireAndForget_def)

lemma setSessionPrompts_body_frame:
  "connectionError (setSessionPrompts_body reply s) = connectionError s"
  "connects (setSessionPrompts_body reply s) = connects s"
  "session (setSessionPrompts_body reply s) = session s"
  by (simp_all add: setSessionPrompts_body_def Let_def pause_frame split: outcome.split)

lemma setSessionDrumMix_body_frame:
  "connectionError (setSessionDrumMix_body reply s) = connectionError s"
  "connects (setSessionDrumMix_body reply s) = connects s"
  "session (setSessionDrumMix_body reply s) = session s"
  by (simp_all add: setSessionDrumMix_body_def Let_def split: outcome.split)

lemma setSessionPrompts_frame:
  "connectionError (setSessionPrompts runs reply s) = connectionError s"
  "connects (setSessionPrompts runs reply s) = connects s"
  "session (setSessionPrompts runs reply s) = session s"
  by (simp_all add: setSessionPrompts_def throttled_def setSessionPrompts_body_frame)

lemma setSessionDrumMix_frame:
  "connectionError (setSessionDrumMix runs reply s) = connectionError s"
  "connects (setSessionDrumMix runs reply s) = connects s"
  "session (setSessionDrumMix runs reply s) = session s"
  by (simp_all add: setSessionDrumMix_def throttled_def setSessionDrumMix_body_frame)

lemma errored_quiet:
  assumes "connectionError s"
  shows "sent (pause reply s) = sent s"
    and "sent (stop reply s) = sent s"
    and "sent (play reply s) = sent s"
    and "sent (setSessionPrompts_body reply s) = sent s"
    and "sent (setSessionDrumMix_body reply s) = sent s"
    and "sent (setSessionPrompts runs reply s) = sent s"
    and "sent (setSessionDrumMix runs reply s) = sent s"
  using assms
  by (simp_all add: pause_sent stop_sent play_def Let_def setSessionPrompts_body_def
      setSessionDrumMix_body_def setSessionPrompts_def setSessionDrumMix_def throttled_def)

lemma onerror_eq:
  "onerror reply s =
     s\<lparr>connectionError := True, playbackState := stopped, nextStartTime := 0,
       toasts := toasts s @ [''Connection error, please restart audio.'']\<rparr>"
  by (simp add: onerror_def stop_def Let_def)

lemma onclose_eq:
  "onclose reply s =
     s\<lparr>connectionError := True, playbackState := stopped, nextStartTime := 0,
       toasts := toasts s @ [''Connection error, please restart audio.'']\<rparr>"
  by (simp add: onclose_def stop_def Let_def)

lemma connectToSession_rejected:
  "connectToSession reply (ConnectRejected m) s =
     s\<lparr>connects := connects s + 1, connectionError := True, playbackState := stopped,
       nextStartTime := 0,
       toasts := toasts s @
         [''Failed to connect to music session: '' @
          (if m = [] then ''Unknown connection error'' else m)]\<rparr>"
  by (simp add: connectToSession_def stop_def Let_def)

lemma connectToSession_frame:
  "connects (connectToSession reply res s) = connects s + 1"
  "connectionError s \<Longrightarrow> connectionError (connectToSession reply res s)"
  "connectionError s \<Longrightarrow> sent (connectToSession reply res s) = sent s"
  by (simp_all add: connectToSession_def stop_def Let_def split: connect_result.split)

subsection \<open>The start time is set only while playing or loading\<close>

lemma settled_update:
  "settled (prompts_update f1 s) = settled s"
  "settled (drumMixSettings_update f3 s) = settled s"
  "settled (session_update f4 s) = settled s"
  "settled (filteredPrompts_update f5 s) = settled s"
  "settled (connectionError_update f6 s) = settled s"
  "settled (scheduled_update f7 s) = settled s"
  "settled (timers_update f8 s) = settled s"
  "settled (toasts_update f9 s) = settled s"
  "settled (sent_update f12 s) = settled s"
  "settled (unhandled_update f10 s) = settled s"
  "settled (connects_update f11 s) = settled s"
  by (simp_all add: settled_def)

lemma settled_basic:
  "settled (pause reply s)"
  "settled (stop reply s)"
  "settled s \<Longrightarrow> settled (play reply s)"
  "settled s \<Longrightarrow> settled (lookaheadElapsed s)"
  by (auto simp: settled_def pause_frame stop_frame play_def fireAndForget_def Let_def
      lookaheadElapsed_def split: list.split)

lemma settled_chunk: "settled s \<Longrightarrow> settled (onAudioChunk t d s)"
  by (cases "playbackState s") (auto simp: settled_def onAudioChunk_def Let_def)

lemma settled_push:
  assumes "settled s"
  shows "settled (setSessionPrompts_body reply s)"
    and "settled (setSessionDrumMix_body reply s)"
    and "settled (setSessionPrompts runs reply s)"
    and "settled (setSessionDrumMix runs reply s)"
  using assms
  by (auto simp: setSessionPrompts_body_def setSessionDrumMix_body_def setSessionPrompts_def
      setSessionDrumMix_def throttled_def Let_def settled_update settled_basic
      split: outcome.split)

lemma settled_connect: "settled s \<Longrightarrow> settled (connectToSession reply res s)"
  by (simp add: connectToSession_def Let_def settled_update settled_basic
      split: connect_result.split)

lemma settled_stopped: "nextStartTime s = 0 \<Longrightarrow> settled (s\<lparr>playbackState := stopped\<rparr>)"
  by (simp add: settled_def)

lemma connectToSession_unset:
  "nextStartTime s = 0 \<Longrightarrow> nextStartTime (connectToSession reply res s) = 0"
  by (simp add: connectToSession_def Let_def stop_frame split: connect_result.split)

lemma settled_closed:
  "settled (onerror reply s)"
  "settled (onclose reply s)"
  by (simp_all add: onerror_eq onclose_eq settled_def)

lemma step_settled:
  assumes "settled s"
  shows "settled (step reply e s)"
proof (cases e)
  case (Message runs t m)
  with assms show ?thesis
    by (simp add: onmessage_def Let_def settled_update settled_basic settled_chunk settled_push
        split: option.split list.split prod.split)
next
  case (FirstUpdated res rp rd)
  with assms show ?thesis
    by (simp add: firstUpdated_def Let_def settled_connect settled_push)
next
  case (PlayPauseClicked res rp rd)
  show ?thesis
  proof (cases "playbackState s = paused \<or> playbackState s = stopped")
    case True
    then have unset: "nextStartTime s = 0" using assms by (auto simp: settled_def)
    have "nextStartTime
            (connectToSession reply res
               (s\<lparr>toasts := toasts s @ [''Reconnecting Lyria session...'']\<rparr>)) = 0"
      by (rule connectToSession_unset) (simp add: unset)
    then show ?thesis
      using assms True PlayPauseClicked
      by (auto simp: handlePlayPause_def Let_def settled_update settled_basic settled_push
          settled_connect settled_stopped)
  next
    case False
    with assms PlayPauseClicked show ?thesis
      by (auto simp: handlePlayPause_def Let_def settled_basic)
  qed
next
  case (PromptChanged runs pid label w c)
  with assms show ?thesis
    by (simp add: handlePromptChanged_def setPrompts_def dispatchPromptsChange_def
        settled_update settled_push split: option.split)
next
  case (DrumMixChanged runs detail)
  with assms show ?thesis
    by (simp add: handleDrumMixChanged_def settled_update settled_push)
next
  case (ResetClicked rp rd startOn)
  with assms show ?thesis
    by (simp add: resetAll_def Let_def setPrompts_def dispatchPromptsChange_def
        settled_update settled_push)
qed (use assms in \<open>simp_all add: settled_basic settled_push settled_closed\<close>)

lemma steps_settled: "settled s \<Longrightarrow> settled (steps reply es s)"
  by (induction es arbitrary: s) (simp_all add: step_settled)

lemma start_time_set_only_while_active:
  assumes "nextStartTime (steps reply es (initial ps)) \<noteq> 0"
  shows "playbackState (steps reply es (initial ps)) = playing \<or>
         playbackState (steps reply es (initial ps)) = loading"
proof -
  have "settled (initial ps)" by (simp add: settled_def initial_def)
  then have "settled (steps reply es (initial ps))" by (rule steps_settled)
  with assms show ?thesis by (simp add: settled_def)
qed

section \<open>The scheduler: contiguity, underrun, lookahead timer\<close>

lemma run_append: "run (xs @ ys) s = run ys (run xs s)"
  by (induction xs arbitrary: s) simp_all

lemma no_underrun_append:
  "no_underrun (xs @ ys) s = (no_underrun xs s \<and> no_underrun ys (run xs s))"
proof (induction xs arbitrary: s)
  case Nil
  show ?case by simp
next
  case (Cons e es)
  show ?case by (cases e) (simp_all add: Cons.IH)
qed

lemma lookaheadElapsed_active:
  "playbackState s = playing \<or> playbackState s = loading \<Longrightarrow>
   playbackState (lookaheadElapsed s) = playing \<or> playbackState (lookaheadElapsed s) = loading"
  by (auto simp: lookaheadElapsed_def split: list.split)

lemma onAudioChunk_scheduled:
  assumes "playbackState s = playing \<or> playbackState s = loading"
      and "\<not> underrun currentTime s"
  shows "scheduled (onAudioChunk currentTime duration s) =
           scheduled s @ [(primed currentTime s, duration)]"
    and "nextStartTime (onAudioChunk currentTime duration s) = primed currentTime s + duration"
    and "playbackState (onAudioChunk currentTime duration s) = playbackState s"
  using assms by (auto simp: onAudioChunk_def underrun_def primed_def Let_def)

lemma primed_pos:
  assumes "\<not> underrun currentTime s" and "0 \<le> currentTime"
  shows "0 < primed currentTime s"
  using assms by (auto simp: underrun_def primed_def bufferTime_def split: if_splits)

lemma run_active:
  "playbackState s = playing \<or> playbackState s = loading \<Longrightarrow>
   playbackState (run evs s) = playing \<or> playbackState (run evs s) = loading"
proof (induction evs arbitrary: s)
  case Nil
  then show ?case by simp
next
  case (Cons e es)
  have "playbackState (handle e s) = playing \<or> playbackState (handle e s) = loading"
  proof (cases e)
    case (ChunkDecoded t d)
    with Cons.prems show ?thesis by (auto simp: onAudioChunk_def Let_def)
  next
    case LookaheadElapsed
    with Cons.prems show ?thesis by (simp add: lookaheadElapsed_active)
  qed
  then show ?case using Cons.IH by simp
qed

lemma start_of_set: "nextStartTime s \<noteq> 0 \<Longrightarrow> start_of evs s = nextStartTime s"
  by (simp add: start_of_def primed_def split: list.split)

lemma run_chain:
  assumes "playbackState s = playing \<or> playbackState s = loading"
      and "\<forall>e \<in> set evs. clock_sane e"
      and "no_underrun evs s"
  shows "\<exists>new. scheduled (run evs s) = scheduled s @ new \<and>
               map snd new = map snd (chunks evs) \<and>
               chain (start_of evs s) new \<and>
               nextStartTime (run evs s) =
                 (if new = [] then nextStartTime s else fst (last new) + snd (last new))"
  using assms
proof (induction evs arbitrary: s)
  case Nil
  then show ?case by simp
next
  case (Cons e es)
  show ?case
  proof (cases e)
    case LookaheadElapsed
    let ?s = "lookaheadElapsed s"
    have a: "playbackState ?s = playing \<or> playbackState ?s = loading"
      using Cons.prems(1) by (rule lookaheadElapsed_active)
    have rest: "\<forall>e \<in> set es. clock_sane e" "no_underrun es ?s"
      using Cons.prems LookaheadElapsed by simp_all
    obtain new where new: "scheduled (run es ?s) = scheduled ?s @ new"
        "map snd new = map snd (chunks es)" "chain (start_of es ?s) new"
        "nextStartTime (run es ?s) =
           (if new = [] then nextStartTime ?s else fst (last new) + snd (last new))"
      using Cons.IH[OF a rest] by blast
    have "start_of es ?s = start_of (e # es) s"
      by (simp add: start_of_def LookaheadElapsed primed_def lookaheadElapsed_fields
          split: list.split)
    with new show ?thesis
      by (intro exI[of _ new]) (simp add: LookaheadElapsed lookaheadElapsed_fields)
  next
    case (ChunkDecoded t d)
    let ?s = "onAudioChunk t d s"
    from Cons.prems ChunkDecoded have nu: "\<not> underrun t s" and sane: "0 \<le> t" "0 \<le> d"
      and rest: "no_underrun es ?s" "\<forall>e \<in> set es. clock_sane e"
      by simp_all
    note step = onAudioChunk_scheduled[OF Cons.prems(1) nu, of d]
    have a: "playbackState ?s = playing \<or> playbackState ?s = loading"
      using Cons.prems(1) step(3) by simp
    have pos: "nextStartTime ?s \<noteq> 0"
      using primed_pos[OF nu sane(1)] sane(2) step(2) by simp
    obtain new where new: "scheduled (run es ?s) = scheduled ?s @ new"
        "map snd new = map snd (chunks es)" "chain (start_of es ?s) new"
        "nextStartTime (run es ?s) =
           (if new = [] then nextStartTime ?s else fst (last new) + snd (last new))"
      using Cons.IH[OF a rest(2) rest(1)] by blast
    have st: "start_of es ?s = primed t s + d"
      using start_of_set[OF pos] step(2) by simp
    have "start_of (e # es) s = primed t s"
      by (simp add: start_of_def ChunkDecoded)
    then show ?thesis
      using new st step by (intro exI[of _ "(primed t s, d) # new"]) (simp add: ChunkDecoded)
  qed
qed

lemma chain_adjacent:
  "chain t bs \<Longrightarrow> Suc i < length bs \<Longrightarrow> fst (bs ! Suc i) = fst (bs ! i) + snd (bs ! i)"
proof (induction bs arbitrary: t i)
  case Nil
  then show ?case by simp
next
  case (Cons b bs)
  obtain a d where b: "b = (a, d)" by (cases b)
  show ?case
  proof (cases i)
    case 0
    with Cons.prems b show ?thesis by (cases bs) auto
  next
    case (Suc j)
    with Cons.prems b show ?thesis using Cons.IH[of "t + d" j] by simp
  qed
qed

text \<open>
  C1. While the playback state is \<open>playing\<close> or \<open>loading\<close> and no chunk underruns, every
  chunk of a run is started exactly at the start time the scheduler holds when it arrives
  (primed to clock time plus lookahead when unset), that time is then advanced by the
  chunk's duration, and so each scheduled buffer starts where the one before it ends:
  \<open>start (i+1) = start i + duration i\<close>. Expiring lookahead timers between the chunks
  change nothing of this.
\<close>

theorem scheduled_starts_contiguous:
  assumes "playbackState s = playing \<or> playbackState s = loading"
      and "\<forall>e \<in> set evs. clock_sane e"
      and "no_underrun evs s"
  shows "(let new = drop (length (scheduled s)) (scheduled (run evs s)) in
            scheduled (run evs s) = scheduled s @ new \<and>
            map snd new = map snd (chunks evs) \<and>
            (\<forall>i. Suc i < length new \<longrightarrow> fst (new ! Suc i) = fst (new ! i) + snd (new ! i))) \<and>
         (\<forall>pre t d post. evs = pre @ ChunkDecoded t d # post \<longrightarrow>
            scheduled (onAudioChunk t d (run pre s)) =
              scheduled (run pre s) @ [(primed t (run pre s), d)] \<and>
            nextStartTime (onAudioChunk t d (run pre s)) = primed t (run pre s) + d)"
proof -
  obtain new where new: "scheduled (run evs s) = scheduled s @ new"
      "map snd new = map snd (chunks evs)" "chain (start_of evs s) new"
    using run_chain[OF assms] by blast
  have d: "drop (length (scheduled s)) (scheduled (run evs s)) = new"
    using new(1) by simp
  have adj: "\<forall>i. Suc i < length new \<longrightarrow> fst (new ! Suc i) = fst (new ! i) + snd (new ! i)"
    using chain_adjacent[OF new(3)] by blast
  have each: "scheduled (onAudioChunk t d (run pre s)) =
                scheduled (run pre s) @ [(primed t (run pre s), d)] \<and>
              nextStartTime (onAudioChunk t d (run pre s)) = primed t (run pre s) + d"
    if "evs = pre @ ChunkDecoded t d # post" for pre t d post
  proof -
    have "no_underrun (ChunkDecoded t d # post) (run pre s)"
      using assms(3) that by (simp add: no_underrun_append)
    then have nu: "\<not> underrun t (run pre s)" by simp
    have act: "playbackState (run pre s) = playing \<or> playbackState (run pre s) = loading"
      using assms(1) by (rule run_active)
    show ?thesis using onAudioChunk_scheduled[OF act nu] by simp
  qed
  show ?thesis unfolding Let_def d using new(1,2) adj each by blast
qed

theorem scheduled_starts_contiguous_witness:
  "(playbackState demo = playing \<or> playbackState demo = loading) \<and>
   clock_sane (ChunkDecoded 0 2) \<and> clock_sane (ChunkDecoded 0.1 2) \<and>
   clock_sane LookaheadElapsed \<and> clock_sane (ChunkDecoded 0.2 2) \<and>
   no_underrun [ChunkDecoded 0 2, ChunkDecoded 0.1 2, LookaheadElapsed, ChunkDecoded 0.2 2] demo \<and>
   scheduled (run [ChunkDecoded 0 2, ChunkDecoded 0.1 2, LookaheadElapsed, ChunkDecoded 0.2 2] demo)
     = [(2, 2), (4, 2), (6, 2)]"
  using scheduled_starts_contiguous
          [of demo "[ChunkDecoded 0 2, ChunkDecoded 0.1 2, LookaheadElapsed, ChunkDecoded 0.2 2]"]
  by (simp add: demo_def initial_def onAudioChunk_def lookaheadElapsed_def underrun_def
      primed_def bufferTime_def Let_def)

text \<open>
  C2. A chunk that arrives while \<open>nextStartTime\<close> is set and earlier than the clock time is
  not scheduled: the playback state becomes \<open>loading\<close>, \<open>nextStartTime\<close> becomes unset
  and nothing else changes. The chunk after it is handled as a first chunk: it sets the
  lookahead timer again and is started 2 seconds after the clock time of its arrival.
  This holds in every state in which chunks are scheduled (\<open>playing\<close> or \<open>loading\<close>),
  and so in every state the controller reaches from its initial state, where the start time
  is set in no other playback state.
\<close>

theorem underrun_drops_chunk_and_reprimes:
  assumes "playbackState s = playing \<or> playbackState s = loading \<or>
           (\<exists>es ps. s = steps reply es (initial ps))"
      and "nextStartTime s \<noteq> 0"
      and "nextStartTime s < currentTime"
  shows "onAudioChunk currentTime duration s = s\<lparr>playbackState := loading, nextStartTime := 0\<rparr> \<and>
         (\<forall>t d. onAudioChunk t d (onAudioChunk currentTime duration s) =
            s\<lparr>playbackState := loading,
              timers := timers s @ [2000],
              scheduled := scheduled s @ [(t + 2, d)],
              nextStartTime := t + 2 + d\<rparr>)"
proof -
  have act: "playbackState s = playing \<or> playbackState s = loading"
    using assms(1,2) start_time_set_only_while_active by blast
  have first: "onAudioChunk currentTime duration s = s\<lparr>playbackState := loading, nextStartTime := 0\<rparr>"
    using act assms(2,3) by (auto simp: onAudioChunk_def Let_def)
  have "onAudioChunk t d (s\<lparr>playbackState := loading, nextStartTime := 0\<rparr>) =
          s\<lparr>playbackState := loading,
            timers := timers s @ [2000],
            scheduled := scheduled s @ [(t + 2, d)],
            nextStartTime := t + 2 + d\<rparr>" for t d
    by (simp add: onAudioChunk_def Let_def bufferTime_def)
  with first show ?thesis by simp
qed

theorem underrun_drops_chunk_and_reprimes_witness:
  "(playbackState (demo\<lparr>nextStartTime := 4\<rparr>) = playing \<or>
      playbackState (demo\<lparr>nextStartTime := 4\<rparr>) = loading) \<and>
   nextStartTime (demo\<lparr>nextStartTime := 4\<rparr>) \<noteq> 0 \<and>
   nextStartTime (demo\<lparr>nextStartTime := 4\<rparr>) < 10 \<and>
   scheduled (onAudioChunk 10 2 (demo\<lparr>nextStartTime := 4\<rparr>)) = [] \<and>
   playbackState (onAudioChunk 10 2 (demo\<lparr>nextStartTime := 4\<rparr>)) = loading \<and>
   nextStartTime (onAudioChunk 10 2 (demo\<lparr>nextStartTime := 4\<rparr>)) = 0 \<and>
   scheduled (onAudioChunk 11 2 (onAudioChunk 10 2 (demo\<lparr>nextStartTime := 4\<rparr>))) = [(13, 2)]"
  using underrun_drops_chunk_and_reprimes
    [where s = "demo\<lparr>nextStartTime := 4\<rparr>" and currentTime = 10 and duration = 2]
  by (simp add: demo_def initial_def onAudioChunk_def Let_def bufferTime_def)

lemma onAudioChunk_primes:
  assumes "playbackState s = playing \<or> playbackState s = loading" and "nextStartTime s = 0"
  shows "timers (onAudioChunk currentTime duration s) = timers s @ [2000]"
  using assms by (auto simp: onAudioChunk_def Let_def bufferTime_def)

text \<open>
  C10. The first chunk after a (re)start sets a timer of 2000 ms whose callback makes the
  playback state \<open>playing\<close> whatever it is when the timer expires. Neither \<open>pause\<close> nor
  \<open>stop\<close> removes the timer, so a pause or stop during the lookahead window is overridden:
  the state becomes \<open>playing\<close>, and no request is made on the session by that.
\<close>

theorem lookahead_timer_overrides_pause:
  assumes "playbackState s = playing \<or> playbackState s = loading"
      and "nextStartTime s = 0"
  shows "timers (onAudioChunk currentTime duration s) = timers s @ [2000] \<and>
         (\<forall>x. timers x \<noteq> [] \<longrightarrow>
              playbackState (lookaheadElapsed x) = playing \<and> sent (lookaheadElapsed x) = sent x) \<and>
         playbackState (pause reply (onAudioChunk currentTime duration s)) = paused \<and>
         playbackState (lookaheadElapsed (pause reply (onAudioChunk currentTime duration s))) = playing \<and>
         playbackState (stop reply (onAudioChunk currentTime duration s)) = stopped \<and>
         playbackState (lookaheadElapsed (stop reply (onAudioChunk currentTime duration s))) = playing"
proof -
  note t = onAudioChunk_primes[OF assms, of currentTime duration]
  have fires: "playbackState (lookaheadElapsed x) = playing \<and> sent (lookaheadElapsed x) = sent x"
    if "timers x \<noteq> []" for x :: PromptDjMidi
    using that by (simp add: lookaheadElapsed_def split: list.split)
  have "timers (pause reply (onAudioChunk currentTime duration s)) \<noteq> []"
       "timers (stop reply (onAudioChunk currentTime duration s)) \<noteq> []"
    using t by (simp_all add: pause_frame stop_frame)
  then show ?thesis using t fires by (simp add: pause_frame stop_frame)
qed

theorem lookahead_timer_overrides_pause_witness:
  "(playbackState demo = playing \<or> playbackState demo = loading) \<and> nextStartTime demo = 0 \<and>
   timers (pause (\<lambda>n. Resolved) (onAudioChunk 0 2 demo)) \<noteq> [] \<and>
   playbackState (pause (\<lambda>n. Resolved) (onAudioChunk 0 2 demo)) = paused \<and>
   playbackState (lookaheadElapsed (pause (\<lambda>n. Resolved) (onAudioChunk 0 2 demo))) = playing"
  using lookahead_timer_overrides_pause [of demo 0 2 "\<lambda>n. Resolved"]
  by (simp add: demo_def initial_def pause_frame onAudioChunk_def Let_def)

section \<open>The drum mix sent\<close>

lemma drumMixToSend_apply:
  "drumMixToSend m stem = Some (case m stem of Some v \<Rightarrow> v | None \<Rightarrow> 0)"
  by (cases stem) (simp_all add: drumMixToSend_def DRUM_STEM_TYPES_def)

lemma DRUM_STEM_TYPES_all: "set DRUM_STEM_TYPES = UNIV"
proof -
  have "stem \<in> set DRUM_STEM_TYPES" for stem
    by (cases stem) (simp_all add: DRUM_STEM_TYPES_def)
  then show ?thesis by blast
qed

lemma setSessionDrumMix_body_sent:
  "sent (setSessionDrumMix_body reply s) =
     sent s @
     (if connectionError s \<or> \<not> session s then []
      else [SetDrumMix (drumMixToSend (drumMixSettings s))])"
  by (simp add: setSessionDrumMix_body_def Let_def split: outcome.split)

text \<open>
  C9. Whatever keys a drum mix lacks, the map built for transmission gives a number to
  each of the ten stem names: the value set for the stem, and 0 where none is set. That
  map is what the push sends.
\<close>

theorem drum_mix_sent_is_total:
  "(\<forall>stem. drumMixToSend m stem = Some (case m stem of Some v \<Rightarrow> v | None \<Rightarrow> 0)) \<and>
   dom (drumMixToSend m) = set DRUM_STEM_TYPES \<and>
   set DRUM_STEM_TYPES = UNIV \<and> length DRUM_STEM_TYPES = 10 \<and> distinct DRUM_STEM_TYPES \<and>
   sent (setSessionDrumMix_body reply s) =
     sent s @
     (if connectionError s \<or> \<not> session s then []
      else [SetDrumMix (drumMixToSend (drumMixSettings s))])"
proof -
  have "dom (drumMixToSend m) = UNIV"
    by (auto simp: dom_def drumMixToSend_apply)
  moreover have "length DRUM_STEM_TYPES = 10" "distinct DRUM_STEM_TYPES"
    by (simp_all add: DRUM_STEM_TYPES_def)
  ultimately show ?thesis
    by (simp add: drumMixToSend_apply DRUM_STEM_TYPES_all setSessionDrumMix_body_sent)
qed

theorem drum_mix_sent_is_total_witness:
  "drumMixToSend [KICK \<mapsto> 0.3] KICK = Some 0.3 \<and>
   drumMixToSend [KICK \<mapsto> 0.3] SNARE = Some 0 \<and>
   sent (setSessionDrumMix_body (\<lambda>n. Resolved) (demo\<lparr>drumMixSettings := [KICK \<mapsto> 0.3]\<rparr>)) =
     [SetDrumMix (drumMixToSend [KICK \<mapsto> 0.3])]"
  using drum_mix_sent_is_total [of "[KICK \<mapsto> 0.3]" "\<lambda>n. Resolved"
      "demo\<lparr>drumMixSettings := [KICK \<mapsto> 0.3]\<rparr>"]
  by (simp add: demo_def initial_def)

section \<open>The prompt push\<close>

lemma getPromptsToSend_set:
  "set (getPromptsToSend s) =
     {p \<in> snd ` set (prompts s). weight p \<noteq> 0 \<and> ptext p \<notin> filteredPrompts s}"
  by (auto simp: getPromptsToSend_def)

lemma setSessionPrompts_body_sent:
  "sent (setSessionPrompts_body reply s) =
     sent s @
     (if connectionError s \<or> \<not> session s then []
      else if getPromptsToSend s = [] then [Pause]
      else SetWeightedPrompts (getPromptsToSend s) #
           (case reply (length (sent s)) of Resolved \<Rightarrow> [] | Rejected m \<Rightarrow> [Pause]))"
  by (simp add: setSessionPrompts_body_def Let_def pause_sent split: outcome.split)

lemma getPromptsToSend_active: "list_all (active (filteredPrompts s)) (getPromptsToSend s)"
  by (simp add: getPromptsToSend_def active_def list_all_iff)

subsection \<open>What each operation adds to the requests made\<close>

lemma extends_okI:
  "filteredPrompts s' = filteredPrompts s \<Longrightarrow> sent s' = sent s @ new \<Longrightarrow>
   list_all (push_ok (filteredPrompts s)) new \<Longrightarrow> extends_ok s s'"
  by (simp add: extends_ok_def)

lemma extends_okD:
  assumes "extends_ok s s'"
  shows "filteredPrompts s' = filteredPrompts s"
    and "\<exists>new. sent s' = sent s @ new \<and> list_all (push_ok (filteredPrompts s)) new"
proof -
  show "filteredPrompts s' = filteredPrompts s" using assms by (simp add: extends_ok_def)
  have t: "take (length (sent s)) (sent s') = sent s"
    using assms by (simp add: extends_ok_def)
  have "sent s' = sent s @ drop (length (sent s)) (sent s')"
    by (metis append_take_drop_id t)
  then show "\<exists>new. sent s' = sent s @ new \<and> list_all (push_ok (filteredPrompts s)) new"
    using assms by (auto simp: extends_ok_def)
qed

lemma extends_ok_refl: "extends_ok s s"
  by (simp add: extends_ok_def)

lemma extends_ok_trans:
  assumes "extends_ok s s'" and "extends_ok s' s''"
  shows "extends_ok s s''"
proof -
  obtain n1 where n1: "sent s' = sent s @ n1" "list_all (push_ok (filteredPrompts s)) n1"
    using extends_okD(2)[OF assms(1)] by blast
  obtain n2 where n2: "sent s'' = sent s' @ n2" "list_all (push_ok (filteredPrompts s')) n2"
    using extends_okD(2)[OF assms(2)] by blast
  have f: "filteredPrompts s' = filteredPrompts s" "filteredPrompts s'' = filteredPrompts s'"
    using assms by (simp_all add: extends_ok_def)
  show ?thesis
    by (rule extends_okI[where new = "n1 @ n2"]) (use n1 n2 f in simp_all)
qed

lemma extends_ok_update:
  "extends_ok s (prompts_update f1 s') = extends_ok s s'"
  "extends_ok s (playbackState_update f2 s') = extends_ok s s'"
  "extends_ok s (drumMixSettings_update f3 s') = extends_ok s s'"
  "extends_ok s (session_update f4 s') = extends_ok s s'"
  "extends_ok s (nextStartTime_update f5 s') = extends_ok s s'"
  "extends_ok s (connectionError_update f6 s') = extends_ok s s'"
  "extends_ok s (scheduled_update f7 s') = extends_ok s s'"
  "extends_ok s (timers_update f8 s') = extends_ok s s'"
  "extends_ok s (toasts_update f9 s') = extends_ok s s'"
  "extends_ok s (unhandled_update f10 s') = extends_ok s s'"
  "extends_ok s (connects_update f11 s') = extends_ok s s'"
  by (simp_all add: extends_ok_def)

lemma extends_ok_step:
  assumes "extends_ok s s'" and "extends_ok s' (f s')"
  shows "extends_ok s (f s')"
  using assms by (rule extends_ok_trans)

lemma fireAndForget_ok:
  "push_ok (filteredPrompts s) c \<Longrightarrow> extends_ok s (fireAndForget reply c s)"
  by (rule extends_okI[where new = "[c]"]) (simp_all add: fireAndForget_def)

lemma pause_ok: "extends_ok s (pause reply s)"
  by (rule extends_okI[where new = "if session s \<and> \<not> connectionError s then [Pause] else []"])
     (simp_all add: pause_frame pause_sent)

lemma stop_ok: "extends_ok s (stop reply s)"
  by (rule extends_okI[where new = "if session s \<and> \<not> connectionError s then [Stop] else []"])
     (simp_all add: stop_frame stop_sent)

lemma play_ok: "extends_ok s (play reply s)"
  unfolding play_def Let_def
  by (auto simp: extends_ok_update extends_ok_refl fireAndForget_ok
      intro: extends_ok_trans[OF _ pause_ok])

lemma setSessionPrompts_body_ok: "extends_ok s (setSessionPrompts_body reply s)"
proof -
  have a: "extends_ok s (s\<lparr>sent := sent s @ [SetWeightedPrompts (getPromptsToSend s)]\<rparr>)"
    by (rule extends_okI[where new = "[SetWeightedPrompts (getPromptsToSend s)]"])
       (simp_all add: getPromptsToSend_active)
  show ?thesis
    unfolding setSessionPrompts_body_def Let_def
    using a
    by (auto simp: extends_ok_update extends_ok_refl split: outcome.split
        intro: extends_ok_trans[OF _ pause_ok])
qed

lemma setSessionDrumMix_body_ok: "extends_ok s (setSessionDrumMix_body reply s)"
proof -
  have a: "extends_ok s (s\<lparr>sent := sent s @ [SetDrumMix m]\<rparr>)" for m
    by (rule extends_okI[where new = "[SetDrumMix m]"]) simp_all
  show ?thesis
    unfolding setSessionDrumMix_body_def Let_def
    using a by (auto simp: extends_ok_update extends_ok_refl split: outcome.split)
qed

lemma setSessionPrompts_ok: "extends_ok s (setSessionPrompts runs reply s)"
  by (simp add: setSessionPrompts_def throttled_def setSessionPrompts_body_ok extends_ok_refl)

lemma setSessionDrumMix_ok: "extends_ok s (setSessionDrumMix runs reply s)"
  by (simp add: setSessionDrumMix_def throttled_def setSessionDrumMix_body_ok extends_ok_refl)

lemma onAudioChunk_ok: "extends_ok s (onAudioChunk t d s)"
  by (simp add: onAudioChunk_def Let_def extends_ok_def)

lemma lookaheadElapsed_ok: "extends_ok s (lookaheadElapsed s)"
  by (simp add: lookaheadElapsed_def extends_ok_def split: list.split)

lemmas step_ok =
  extends_ok_step[OF _ pause_ok] extends_ok_step[OF _ stop_ok] extends_ok_step[OF _ play_ok]
  extends_ok_step[OF _ setSessionPrompts_ok] extends_ok_step[OF _ setSessionDrumMix_ok]
  extends_ok_step[OF _ setSessionPrompts_body_ok] extends_ok_step[OF _ setSessionDrumMix_body_ok]

lemma onerror_ok: "extends_ok s (onerror reply s)"
  unfolding onerror_def Let_def
  by (auto simp: extends_ok_update extends_ok_refl intro!: step_ok)

lemma onclose_ok: "extends_ok s (onclose reply s)"
  unfolding onclose_def Let_def
  by (auto simp: extends_ok_update extends_ok_refl intro!: step_ok)

lemma connectToSession_ok: "extends_ok s (connectToSession reply res s)"
  unfolding connectToSession_def Let_def
  by (auto simp: extends_ok_update extends_ok_refl intro!: step_ok split: connect_result.split)

lemma firstUpdated_ok: "extends_ok s (firstUpdated reply res rp rd s)"
  unfolding firstUpdated_def Let_def
  by (auto simp: extends_ok_update extends_ok_refl connectToSession_ok intro!: step_ok)

lemma handlePlayPause_ok: "extends_ok s (handlePlayPause reply res rp rd s)"
  unfolding handlePlayPause_def Let_def
  by (auto simp: extends_ok_update extends_ok_refl pause_ok play_ok stop_ok
      intro!: step_ok extends_ok_step[OF _ connectToSession_ok])

lemma setPrompts_ok: "extends_ok s (setPrompts reply runs ps s)"
  unfolding setPrompts_def dispatchPromptsChange_def
  by (auto simp: extends_ok_update extends_ok_refl intro!: step_ok)

lemma handlePromptChanged_ok: "extends_ok s (handlePromptChanged reply runs pid txt w c s)"
  unfolding handlePromptChanged_def
  by (simp add: setPrompts_ok extends_ok_refl split: option.split)

lemma handleDrumMixChanged_ok: "extends_ok s (handleDrumMixChanged reply runs detail s)"
  unfolding handleDrumMixChanged_def
  by (auto simp: extends_ok_update extends_ok_refl intro!: step_ok)

lemma resetAll_ok: "extends_ok s (resetAll reply rp rd startOn s)"
  unfolding resetAll_def Let_def
  by (auto simp: extends_ok_update extends_ok_refl setPrompts_ok intro!: step_ok)

lemma setSessionDrumMix_sent:
  "sent (setSessionDrumMix runs reply s) =
     sent s @
     (if runs \<and> \<not> connectionError s \<and> session s
      then [SetDrumMix (drumMixToSend (drumMixSettings s))] else [])"
  by (simp add: setSessionDrumMix_def throttled_def setSessionDrumMix_body_sent)

lemma onmessage_filteredPrompts:
  "filteredPrompts (onmessage reply runs t e s) =
     (case filteredPrompt e of
        None \<Rightarrow> filteredPrompts s
      | Some (txt, reason) \<Rightarrow> insert txt (filteredPrompts s))"
  by (simp add: onmessage_def Let_def onAudioChunk_frame extends_okD(1)[OF setSessionDrumMix_ok]
      split: option.split list.split prod.split)

lemma onmessage_sent:
  "sent (onmessage reply runs t e s) =
     sent s @
     (if setupComplete e \<and> runs \<and> session s
      then [SetDrumMix (drumMixToSend (drumMixSettings s))] else [])"
  by (simp add: onmessage_def Let_def onAudioChunk_frame setSessionDrumMix_sent
      split: option.split list.split prod.split)

lemma step_ok_unless_message:
  "extends_ok s (step reply e s) \<or> (\<exists>runs t m. e = Message runs t m)"
  by (cases e)
     (simp_all add: onerror_ok onclose_ok lookaheadElapsed_ok firstUpdated_ok handlePlayPause_ok
        handlePromptChanged_ok handleDrumMixChanged_ok resetAll_ok setSessionPrompts_body_ok
        setSessionDrumMix_body_ok)

lemma push_ok_member:
  assumes "list_all (push_ok F) new" and "SetWeightedPrompts ps \<in> set new"
  shows "\<forall>p \<in> set ps. weight p \<noteq> 0 \<and> ptext p \<notin> F"
proof -
  have "push_ok F (SetWeightedPrompts ps)"
    using assms by (auto simp: list_all_iff)
  then show ?thesis by (simp add: list_all_iff active_def)
qed

lemma step_pushes_active:
  assumes "SetWeightedPrompts ps \<in> set (sent (step reply e s))"
  shows "SetWeightedPrompts ps \<in> set (sent s) \<or>
         (\<forall>p \<in> set ps. weight p \<noteq> 0 \<and> ptext p \<notin> filteredPrompts s)"
proof (cases "\<exists>runs t m. e = Message runs t m")
  case True
  then obtain runs t m where "e = Message runs t m" by blast
  with assms show ?thesis by (simp add: onmessage_sent split: if_splits)
next
  case False
  then have "extends_ok s (step reply e s)"
    using step_ok_unless_message[of s reply e] by blast
  then obtain new where new: "sent (step reply e s) = sent s @ new"
      "list_all (push_ok (filteredPrompts s)) new"
    using extends_okD(2) by blast
  show ?thesis
  proof (cases "SetWeightedPrompts ps \<in> set (sent s)")
    case True
    then show ?thesis by simp
  next
    case False
    with assms new(1) have "SetWeightedPrompts ps \<in> set new" by simp
    then show ?thesis using push_ok_member[OF new(2)] by blast
  qed
qed

text \<open>
  C3. The prompts of an outbound prompt push are exactly the prompts whose weight is not 0
  and whose text is not in the filtered set. The push function sends that list and no
  other, and no event of the controller puts a prompt of weight 0 or of filtered text on
  the wire.
\<close>

theorem prompts_sent_are_active_and_unfiltered:
  "set (getPromptsToSend s) =
     {p \<in> snd ` set (prompts s). weight p \<noteq> 0 \<and> ptext p \<notin> filteredPrompts s} \<and>
   sent (setSessionPrompts_body reply s) =
     sent s @
     (if connectionError s \<or> \<not> session s then []
      else if getPromptsToSend s = [] then [Pause]
      else SetWeightedPrompts (getPromptsToSend s) #
           (case reply (length (sent s)) of Resolved \<Rightarrow> [] | Rejected m \<Rightarrow> [Pause])) \<and>
   (\<forall>e ps. SetWeightedPrompts ps \<in> set (sent (step reply e s)) \<longrightarrow>
       SetWeightedPrompts ps \<in> set (sent s) \<or>
       (\<forall>p \<in> set ps. weight p \<noteq> 0 \<and> ptext p \<notin> filteredPrompts s))"
  using getPromptsToSend_set[of s] setSessionPrompts_body_sent[of reply s]
    step_pushes_active[of _ reply _ s]
  by blast

theorem prompts_sent_are_active_and_unfiltered_witness:
  "getPromptsToSend mixing = [promptA] \<and>
   sent (step (\<lambda>n. Resolved) DeferredPromptsPush mixing) = [SetWeightedPrompts [promptA]] \<and>
   weight promptA \<noteq> 0 \<and> ptext promptA \<notin> filteredPrompts mixing"
  using prompts_sent_are_active_and_unfiltered [of mixing "\<lambda>n. Resolved"]
  by (simp add: mixing_def demo_def initial_def getPromptsToSend_def promptA_def)

section \<open>The filtered set\<close>

lemma step_filteredPrompts:
  "filteredPrompts (step reply e s) =
     (case e of
        Message runs t m \<Rightarrow>
          (case filteredPrompt m of
             None \<Rightarrow> filteredPrompts s
           | Some (txt, reason) \<Rightarrow> insert txt (filteredPrompts s))
      | _ \<Rightarrow> filteredPrompts s)"
proof (cases "\<exists>runs t m. e = Message runs t m")
  case True
  then show ?thesis by (auto simp: onmessage_filteredPrompts)
next
  case False
  then have "extends_ok s (step reply e s)"
    using step_ok_unless_message[of s reply e] by blast
  then have "filteredPrompts (step reply e s) = filteredPrompts s"
    by (rule extends_okD(1))
  with False show ?thesis by (cases e) simp_all
qed

lemma step_filteredPrompts_mono: "filteredPrompts s \<subseteq> filteredPrompts (step reply e s)"
  by (auto simp: step_filteredPrompts split: event.split option.split)

lemma steps_filteredPrompts_mono: "filteredPrompts s \<subseteq> filteredPrompts (steps reply es s)"
proof (induction es arbitrary: s)
  case Nil
  show ?case by simp
next
  case (Cons e es)
  have "filteredPrompts s \<subseteq> filteredPrompts (step reply e s)"
    by (rule step_filteredPrompts_mono)
  also have "\<dots> \<subseteq> filteredPrompts (steps reply es (step reply e s))"
    by (rule Cons.IH)
  finally show ?case by simp
qed

text \<open>
  The manual reset does not clear the filtered set: after \<open>resetAll\<close> the text that was
  filtered before is filtered still.
\<close>

theorem reset_keeps_filtered_prompts_counterexample:
  "filteredPrompts mixing = {''Funk''} \<and>
   filteredPrompts (resetAll (\<lambda>n. Resolved) True True [0, 1, 2] mixing) = {''Funk''} \<and>
   filteredPrompts (resetAll (\<lambda>n. Resolved) True True [0, 1, 2] mixing) \<noteq> {}"
  by (simp add: extends_okD(1)[OF resetAll_ok] mixing_def)

text \<open>
  C8, as amended. The filtered set only grows: no event of the controller removes a text
  from it, over one event and over any run of events; a filtered-prompt notice adds the
  text it names; and the manual reset leaves the set as it is.
\<close>

theorem filtered_prompts_only_grow:
  "filteredPrompts s \<subseteq> filteredPrompts (step reply e s) \<and>
   filteredPrompts s \<subseteq> filteredPrompts (steps reply es s) \<and>
   filteredPrompts (step reply (Message runs t (m\<lparr>filteredPrompt := Some (label, reason)\<rparr>)) s) =
     insert label (filteredPrompts s) \<and>
   filteredPrompts (step reply (ResetClicked rp rd startOn) s) = filteredPrompts s"
  by (simp add: step_filteredPrompts_mono steps_filteredPrompts_mono onmessage_filteredPrompts
      extends_okD(1)[OF resetAll_ok])

theorem filtered_prompts_only_grow_witness:
  "filteredPrompts (step (\<lambda>n. Resolved) (ResetClicked True True [0, 1, 2]) mixing) = {''Funk''} \<and>
   filteredPrompts
     (step (\<lambda>n. Resolved)
        (Message False 0 \<lparr>setupComplete = False, filteredPrompt = Some (''Thrash'', ''unsafe''),
                          audioChunks = None\<rparr>) mixing) = {''Thrash'', ''Funk''}"
  using filtered_prompts_only_grow
    [where s = mixing and reply = "\<lambda>n. Resolved" and rp = True and rd = True
       and startOn = "[0, 1, 2]" and runs = False and t = 0 and label = "''Thrash''"
       and reason = "''unsafe''"
       and m = "\<lparr>setupComplete = False, filteredPrompt = None, audioChunks = None\<rparr>"]
  by (simp add: mixing_def)

section \<open>Connection failure\<close>

lemma step_errored_quiet:
  assumes "connectionError s" and "\<not> is_setup e"
  shows "connectionError (step reply e s) \<and> sent (step reply e s) = sent s"
proof (cases e)
  case (Message runs t m)
  with assms show ?thesis
    by (simp add: is_setup_def onmessage_sent onmessage_def Let_def onAudioChunk_frame
        split: option.split list.split prod.split)
next
  case ConnectionError
  with assms show ?thesis by (simp add: onerror_eq)
next
  case ConnectionClosed
  with assms show ?thesis by (simp add: onclose_eq)
next
  case TimerElapsed
  with assms show ?thesis by (simp add: lookaheadElapsed_frame lookaheadElapsed_sent)
next
  case (FirstUpdated res rp rd)
  with assms show ?thesis
    by (simp add: firstUpdated_def Let_def connectToSession_frame setSessionPrompts_frame
        errored_quiet)
next
  case (PlayPauseClicked res rp rd)
  with assms show ?thesis
    by (simp add: handlePlayPause_def Let_def connectToSession_frame pause_frame stop_frame
        errored_quiet)
next
  case (PromptChanged runs pid label w c)
  with assms show ?thesis
    by (simp add: handlePromptChanged_def setPrompts_def dispatchPromptsChange_def
        setSessionPrompts_frame errored_quiet split: option.split)
next
  case (DrumMixChanged runs detail)
  with assms show ?thesis
    by (simp add: handleDrumMixChanged_def setSessionDrumMix_frame errored_quiet)
next
  case (ResetClicked rp rd startOn)
  with assms show ?thesis
    by (simp add: resetAll_def Let_def setPrompts_def dispatchPromptsChange_def
        setSessionPrompts_frame setSessionDrumMix_frame errored_quiet)
next
  case DeferredPromptsPush
  with assms show ?thesis by (simp add: setSessionPrompts_body_frame errored_quiet)
next
  case DeferredDrumMixPush
  with assms show ?thesis by (simp add: setSessionDrumMix_body_frame errored_quiet)
qed

lemma step_connects: "connects (step reply e s) = connects s + reconnects e s"
proof (cases e)
  case (Message runs t m)
  then show ?thesis
    by (simp add: reconnects_def onmessage_def Let_def onAudioChunk_frame setSessionDrumMix_frame
        split: option.split list.split prod.split)
next
  case (FirstUpdated res rp rd)
  then show ?thesis
    by (simp add: reconnects_def firstUpdated_def Let_def connectToSession_frame
        setSessionPrompts_frame setSessionDrumMix_frame)
next
  case (PlayPauseClicked res rp rd)
  then show ?thesis
    by (simp add: reconnects_def handlePlayPause_def Let_def connectToSession_frame pause_frame
        stop_frame play_frame setSessionPrompts_frame setSessionDrumMix_frame)
next
  case (PromptChanged runs pid label w c)
  then show ?thesis
    by (simp add: reconnects_def handlePromptChanged_def setPrompts_def dispatchPromptsChange_def
        setSessionPrompts_frame split: option.split)
next
  case (ResetClicked rp rd startOn)
  then show ?thesis
    by (simp add: reconnects_def resetAll_def Let_def setPrompts_def dispatchPromptsChange_def
        setSessionPrompts_frame setSessionDrumMix_frame)
qed (simp_all add: reconnects_def onerror_eq onclose_eq lookaheadElapsed_frame
      handleDrumMixChanged_def setSessionDrumMix_frame setSessionPrompts_body_frame
      setSessionDrumMix_body_frame)

text \<open>
  C7. A connection error, a remote close and a failed connect each mark the connection
  errored, set the playback state to \<open>stopped\<close>, reset \<open>nextStartTime\<close> and show a notice,
  and change nothing else: no request is made and no connection is attempted. A connection
  is attempted only by \<open>firstUpdated\<close> and by a play/pause click made while paused or
  stopped with the connection errored or no session, which attempts exactly one. While the
  connection is errored, no event other than a setup-complete message makes a request on
  the session or clears the error.
\<close>

theorem connection_failure_stops_without_reconnect:
  "onerror reply s =
     s\<lparr>connectionError := True, playbackState := stopped, nextStartTime := 0,
       toasts := toasts s @ [''Connection error, please restart audio.'']\<rparr> \<and>
   onclose reply s =
     s\<lparr>connectionError := True, playbackState := stopped, nextStartTime := 0,
       toasts := toasts s @ [''Connection error, please restart audio.'']\<rparr> \<and>
   connectToSession reply (ConnectRejected m) s =
     s\<lparr>connects := connects s + 1, connectionError := True, playbackState := stopped,
       nextStartTime := 0,
       toasts := toasts s @
         [''Failed to connect to music session: '' @
          (if m = [] then ''Unknown connection error'' else m)]\<rparr> \<and>
   (\<forall>e. connects (step reply e s) = connects s + reconnects e s) \<and>
   (\<forall>e. connectionError s \<and> \<not> is_setup e \<longrightarrow>
        connectionError (step reply e s) \<and> sent (step reply e s) = sent s)"
  using onerror_eq[of reply s] onclose_eq[of reply s] connectToSession_rejected[of reply m s]
    step_connects[of reply _ s] step_errored_quiet[of s _ reply]
  by blast

theorem connection_failure_stops_without_reconnect_witness:
  "playbackState (step (\<lambda>n. Resolved) ConnectionError mixing) = stopped \<and>
   connectionError (step (\<lambda>n. Resolved) ConnectionError mixing) \<and>
   nextStartTime (step (\<lambda>n. Resolved) ConnectionError mixing) = 0 \<and>
   sent (step (\<lambda>n. Resolved) ConnectionError mixing) = [] \<and>
   connects (step (\<lambda>n. Resolved) ConnectionError mixing) = 0 \<and>
   \<not> is_setup (PlayPauseClicked (ConnectRejected ''offline'') True True) \<and>
   connects (step (\<lambda>n. Resolved) (PlayPauseClicked (ConnectRejected ''offline'') True True)
              (step (\<lambda>n. Resolved) ConnectionError mixing)) = 1 \<and>
   sent (step (\<lambda>n. Resolved) (PlayPauseClicked (ConnectRejected ''offline'') True True)
              (step (\<lambda>n. Resolved) ConnectionError mixing)) = []"
  using connection_failure_stops_without_reconnect
    [of "\<lambda>n. Resolved" "step (\<lambda>n. Resolved) ConnectionError mixing" "''offline''"]
  by (simp add: onerror_eq is_setup_def handlePlayPause_def connectToSession_rejected
      mixing_def demo_def initial_def)

section \<open>Failed requests\<close>

text \<open>
  On a connected controller that is playing, a rejected \<open>setDrumMix\<close> leaves the playback
  state \<open>playing\<close>; and on the same controller paused, a rejected \<open>play\<close> shows no notice,
  leaves the state \<open>loading\<close> and is a rejection without a handler.
\<close>

theorem command_failure_counterexample:
  "session mixing \<and> \<not> connectionError mixing \<and> playbackState mixing = playing \<and>
   playbackState (setSessionDrumMix_body (\<lambda>n. Rejected ''refused'') mixing) = playing \<and>
   toasts (play (\<lambda>n. Rejected ''refused'') (mixing\<lparr>playbackState := paused\<rparr>)) = [] \<and>
   playbackState (play (\<lambda>n. Rejected ''refused'') (mixing\<lparr>playbackState := paused\<rparr>)) = loading \<and>
   unhandled (play (\<lambda>n. Rejected ''refused'') (mixing\<lparr>playbackState := paused\<rparr>)) = [''refused'']"
  by (simp add: mixing_def demo_def initial_def setSessionDrumMix_body_def play_def
      getPromptsToSend_def promptA_def fireAndForget_def Let_def)

text \<open>
  C5, as amended. On a connected controller, when the request fails: a failed
  \<open>setWeightedPrompts\<close> is caught where it is issued, its message is shown as a notice and
  the playback state falls back to \<open>paused\<close> (through \<open>pause\<close>, whose own request is the
  only one that can then be left unhandled); a failed \<open>setDrumMix\<close> is caught and shown as
  a notice, and changes nothing else; \<open>play\<close>, \<open>pause\<close> and \<open>stop\<close> are requested without
  a handler, so their failure is not caught, shows no notice and leaves the state the method
  sets.
\<close>

theorem command_failures_as_handled:
  assumes "session s" and "\<not> connectionError s" and "reply (length (sent s)) = Rejected m"
  shows "(getPromptsToSend s \<noteq> [] \<longrightarrow>
            setSessionPrompts_body reply s =
              pause reply (s\<lparr>sent := sent s @ [SetWeightedPrompts (getPromptsToSend s)],
                              toasts := toasts s @ [m]\<rparr>) \<and>
            toasts (setSessionPrompts_body reply s) = toasts s @ [m] \<and>
            playbackState (setSessionPrompts_body reply s) = paused \<and>
            unhandled (setSessionPrompts_body reply s) =
              unhandled s @
              (case reply (Suc (length (sent s))) of Resolved \<Rightarrow> [] | Rejected m' \<Rightarrow> [m'])) \<and>
         setSessionDrumMix_body reply s =
           s\<lparr>sent := sent s @ [SetDrumMix (drumMixToSend (drumMixSettings s))],
             toasts := toasts s @ [''Error setting drum mix: '' @ m]\<rparr> \<and>
         pause reply s =
           s\<lparr>sent := sent s @ [Pause], unhandled := unhandled s @ [m],
             playbackState := paused, nextStartTime := 0\<rparr> \<and>
         stop reply s =
           s\<lparr>sent := sent s @ [Stop], unhandled := unhandled s @ [m],
             playbackState := stopped, nextStartTime := 0\<rparr> \<and>
         (getPromptsToSend s \<noteq> [] \<longrightarrow>
            play reply s =
              s\<lparr>sent := sent s @ [Play], unhandled := unhandled s @ [m],
                playbackState := loading\<rparr>)"
proof -
  have p: "setSessionPrompts_body reply s =
             pause reply (s\<lparr>sent := sent s @ [SetWeightedPrompts (getPromptsToSend s)],
                             toasts := toasts s @ [m]\<rparr>)"
    if "getPromptsToSend s \<noteq> []"
    using assms that by (simp add: setSessionPrompts_body_def Let_def)
  have u: "unhandled (pause reply (s\<lparr>sent := sent s @ [c], toasts := toasts s @ [m]\<rparr>)) =
             unhandled s @
             (case reply (Suc (length (sent s))) of Resolved \<Rightarrow> [] | Rejected m' \<Rightarrow> [m'])" for c
    using assms by (simp add: pause_def fireAndForget_def Let_def)
  have d: "setSessionDrumMix_body reply s =
             s\<lparr>sent := sent s @ [SetDrumMix (drumMixToSend (drumMixSettings s))],
               toasts := toasts s @ [''Error setting drum mix: '' @ m]\<rparr>"
    using assms by (simp add: setSessionDrumMix_body_def Let_def)
  have f: "pause reply s =
             s\<lparr>sent := sent s @ [Pause], unhandled := unhandled s @ [m],
               playbackState := paused, nextStartTime := 0\<rparr>"
          "stop reply s =
             s\<lparr>sent := sent s @ [Stop], unhandled := unhandled s @ [m],
               playbackState := stopped, nextStartTime := 0\<rparr>"
    using assms by (simp_all add: pause_def stop_def fireAndForget_def Let_def)
  have g: "play reply s =
             s\<lparr>sent := sent s @ [Play], unhandled := unhandled s @ [m],
               playbackState := loading\<rparr>"
    if "getPromptsToSend s \<noteq> []"
    using assms that by (simp add: play_def fireAndForget_def Let_def)
  show ?thesis
    using p u d f g by (simp add: pause_frame)
qed

theorem command_failures_as_handled_witness:
  "session mixing \<and> \<not> connectionError mixing \<and>
   (\<lambda>n. Rejected ''refused'') (length (sent mixing)) = Rejected ''refused'' \<and>
   getPromptsToSend mixing \<noteq> [] \<and>
   toasts (setSessionPrompts_body (\<lambda>n. Rejected ''refused'') mixing) = [''refused''] \<and>
   playbackState (setSessionPrompts_body (\<lambda>n. Rejected ''refused'') mixing) = paused \<and>
   playbackState (setSessionDrumMix_body (\<lambda>n. Rejected ''refused'') mixing) = playing \<and>
   toasts (setSessionDrumMix_body (\<lambda>n. Rejected ''refused'') mixing) =
     [''Error setting drum mix: refused'']"
  using command_failures_as_handled [of mixing "\<lambda>n. Rejected ''refused''" "''refused''"]
  by (simp add: mixing_def demo_def initial_def getPromptsToSend_def promptA_def pause_frame)

section \<open>No active prompt\<close>

text \<open>
  With no active prompt on a connected controller, both the play request and the prompt push
  send something to the remote session: the pause request made by \<open>pause\<close>.
\<close>

theorem empty_prompts_counterexample:
  "getPromptsToSend silent = [] \<and> session silent \<and> \<not> connectionError silent \<and>
   sent silent = [] \<and>
   sent (play (\<lambda>n. Resolved) silent) = [Pause] \<and>
   sent (setSessionPrompts_body (\<lambda>n. Resolved) silent) = [Pause]"
  by (simp add: silent_def mixing_def demo_def initial_def getPromptsToSend_def promptA_def
      play_def setSessionPrompts_body_def pause_sent)

text \<open>
  C6, as amended. If no prompt is active when \<open>play\<close> is called with a session set, or when
  the prompt push runs on a connected session, then no prompts and no play request are
  sent, the notice is shown and the playback state is forced to \<open>paused\<close> by \<open>pause\<close>,
  which sends a pause request to the remote session unless the connection is errored.
\<close>

theorem empty_active_prompts_refused:
  assumes "getPromptsToSend s = []" and "session s"
  shows "play reply s =
           pause reply
             (s\<lparr>toasts := toasts s @
                  [''Add some sound flavor! Turn up a knob to play music.'']\<rparr>) \<and>
         playbackState (play reply s) = paused \<and>
         toasts (play reply s) =
           toasts s @ [''Add some sound flavor! Turn up a knob to play music.''] \<and>
         sent (play reply s) = sent s @ (if connectionError s then [] else [Pause]) \<and>
         (\<not> connectionError s \<longrightarrow>
            setSessionPrompts_body reply s =
              pause reply
                (s\<lparr>toasts := toasts s @ [''There needs to be one active prompt to play.'']\<rparr>) \<and>
            playbackState (setSessionPrompts_body reply s) = paused \<and>
            toasts (setSessionPrompts_body reply s) =
              toasts s @ [''There needs to be one active prompt to play.''] \<and>
            sent (setSessionPrompts_body reply s) = sent s @ [Pause])"
proof -
  have a: "play reply s =
             pause reply
               (s\<lparr>toasts := toasts s @
                    [''Add some sound flavor! Turn up a knob to play music.'']\<rparr>)"
    using assms by (simp add: play_def)
  have b: "setSessionPrompts_body reply s =
             pause reply
               (s\<lparr>toasts := toasts s @ [''There needs to be one active prompt to play.'']\<rparr>)"
    if "\<not> connectionError s"
    using assms that by (simp add: setSessionPrompts_body_def Let_def)
  show ?thesis
    using a b assms(2) by (simp add: pause_frame pause_sent)
qed

theorem empty_active_prompts_refused_witness:
  "getPromptsToSend silent = [] \<and> session silent \<and>
   playbackState (play (\<lambda>n. Resolved) silent) = paused \<and>
   toasts (play (\<lambda>n. Resolved) silent) =
     [''Add some sound flavor! Turn up a knob to play music.''] \<and>
   playbackState (setSessionPrompts_body (\<lambda>n. Resolved) silent) = paused \<and>
   toasts (setSessionPrompts_body (\<lambda>n. Resolved) silent) =
     [''There needs to be one active prompt to play.'']"
  using empty_active_prompts_refused [of silent "\<lambda>n. Resolved"]
  by (simp add: silent_def mixing_def demo_def initial_def getPromptsToSend_def promptA_def
      pause_frame)

section \<open>Bursts of edits under the throttle\<close>


















end
